theory Spec2Isabelle
  imports Main
begin

section \<open>Data model\<close>

text \<open>
  The views of \<^verbatim>\<open>strichliste/views.py\<close> work on two tables, \<^verbatim>\<open>User\<close> and
  \<^verbatim>\<open>Transaction\<close>. A row is a record; a table is the list of its rows in table order.
  Primary keys are natural numbers. The creation timestamp of a transaction is left out:
  no view reads it.
\<close>

record user =
  u_id :: nat
  name :: string
  mail_address :: "string option"
  balance :: int
  active :: bool

record transaction =
  tx_id :: nat
  tx_user :: nat
  tx_value :: int
  double_entry_id :: "nat option"

text \<open>
  The database: both tables and the auto-increment counter that hands out the primary key
  of the next inserted transaction.
\<close>

record store =
  users :: "user list"
  transactions :: "transaction list"
  next_transaction_id :: nat

text \<open>
  The exceptions that the views raise or handle. \<^verbatim>\<open>User.DoesNotExist\<close> is the class the
  ORM raises from \<^verbatim>\<open>User.objects.get\<close> (the views catch it under that name in
  \<^verbatim>\<open>UserViewSet.retrieve\<close> and \<^verbatim>\<open>UserTransactionViewSet.list\<close>); \<^verbatim>\<open>UserNotFound\<close>,
  \<^verbatim>\<open>TransactionValueZero\<close> and \<^verbatim>\<open>TransactionValueError\<close> are the classes imported from
  the serializers module.
\<close>

datatype exn =
  DoesNotExist
  | UserNotFound
  | TransactionValueZero
  | TransactionValueError
  | AssertionError

text \<open>The bodies of the responses. A message keeps the data it is formatted from.\<close>

datatype msg =
  UserNotFoundMsg nat
  | TransactionNotFoundMsg
  | ValueMissingMsg
  | ExnMsg exn

record user_full_dict =
  fd_id :: nat
  fd_name :: string
  fd_balance :: int
  fd_mail_address :: "string option"

record user_dict =
  d_id :: nat
  d_name :: string
  d_balance :: int

record 'a page =
  entries :: "'a list"
  limit :: int
  offset :: int
  overall_count :: int

datatype data =
  Msg msg
  | TransactionData transaction
  | UserData user_full_dict
  | UserPage "user_dict page"
  | TransactionPage "transaction page"

record response =
  status :: nat
  body :: data

definition Response :: "data \<Rightarrow> nat \<Rightarrow> response" where
  "Response d st = \<lparr>status = st, body = d\<rparr>"

definition HTTP_200_OK :: nat where "HTTP_200_OK = 200"
definition HTTP_201_CREATED :: nat where "HTTP_201_CREATED = 201"
definition HTTP_400_BAD_REQUEST :: nat where "HTTP_400_BAD_REQUEST = 400"
definition HTTP_403_FORBIDDEN :: nat where "HTTP_403_FORBIDDEN = 403"
definition HTTP_404_NOT_FOUND :: nat where "HTTP_404_NOT_FOUND = 404"

section \<open>The object-relational layer\<close>

text \<open>
  \<^verbatim>\<open>User.objects.get(pk=k)\<close> returns a fresh copy of the row with primary key \<open>k\<close>, or
  raises \<^verbatim>\<open>User.DoesNotExist\<close> (here: \<open>None\<close>). Two calls with the same key give two
  independent copies.
\<close>

definition get_user :: "store \<Rightarrow> nat \<Rightarrow> user option" where
  "get_user s k = find (\<lambda>u. u_id u = k) (users s)"

text \<open>
  \<^verbatim>\<open>instance.save()\<close> of an object that has a primary key writes all the fields of the
  object over the row with that key.
\<close>

definition user_save :: "store \<Rightarrow> user \<Rightarrow> store" where
  "user_save s u = s\<lparr>users := map (\<lambda>r. if u_id r = u_id u then u else r) (users s)\<rparr>"

definition transaction_save :: "store \<Rightarrow> transaction \<Rightarrow> store" where
  "transaction_save s t =
     s\<lparr>transactions := map (\<lambda>r. if tx_id r = tx_id t then t else r) (transactions s)\<rparr>"

text \<open>
  Inserting a new transaction row: the database assigns the next primary key. The new
  object, with its key, is returned next to the new store.
\<close>

definition transaction_insert :: "store \<Rightarrow> nat \<Rightarrow> int \<Rightarrow> nat option \<Rightarrow> store \<times> transaction" where
  "transaction_insert s uid val de =
     (let t = \<lparr>tx_id = next_transaction_id s, tx_user = uid, tx_value = val,
                double_entry_id = de\<rparr>
      in (s\<lparr>transactions := transactions s @ [t],
            next_transaction_id := Suc (next_transaction_id s)\<rparr>, t))"

text \<open>
  \<^verbatim>\<open>with transaction.atomic():\<close> runs a block on the store. When the block raises, every
  write it made is rolled back and the exception goes on to the caller.
\<close>

definition atomic :: "(store \<Rightarrow> store \<times> (exn + 'a)) \<Rightarrow> store \<Rightarrow> store \<times> (exn + 'a)" where
  "atomic blk s =
     (case blk s of
        (s', Inl e) \<Rightarrow> (s, Inl e)
      | (s', Inr r) \<Rightarrow> (s', Inr r))"

section \<open>Serializer and settings\<close>

text \<open>
  Modelled from the spec: the settings module is missing from the sources. The
  allowed range of a transaction amount is a pair of configured bounds.
\<close>

record settings =
  lower_bound :: int
  upper_bound :: int

text \<open>
  Modelled from the spec: the serializers module (\<^verbatim>\<open>TransactionSerializer\<close> and its
  validation) is missing from the sources. Section 4.1 of the specification: the
  validator fails with \<^verbatim>\<open>ValueZero\<close> when the amount is zero and with
  \<^verbatim>\<open>ValueOutOfRange\<close> when it lies outside the configured range; it has no side effect.
\<close>

definition validate_value :: "settings \<Rightarrow> int \<Rightarrow> exn option" where
  "validate_value cfg val =
     (if val = 0 then Some TransactionValueZero
      else if val < lower_bound cfg \<or> upper_bound cfg < val then Some TransactionValueError
      else None)"

text \<open>
  Modelled from the spec: \<^verbatim>\<open>serializer.is_valid(raise_exception=True)\<close> on the data
  \<^verbatim>\<open>{'user': uid, 'value': val}\<close>. It raises \<^verbatim>\<open>UserNotFound\<close> when the user does not
  resolve and otherwise what the validator of the amount raises (\<open>None\<close>: valid).
\<close>

definition is_valid :: "settings \<Rightarrow> store \<Rightarrow> nat \<Rightarrow> int \<Rightarrow> exn option" where
  "is_valid cfg s uid val =
     (case get_user s uid of
        None \<Rightarrow> Some UserNotFound
      | Some _ \<Rightarrow> validate_value cfg val)"

text \<open>
  Modelled from the spec: \<^verbatim>\<open>serializer.save(**kwargs)\<close> creates the transaction row from
  the validated data and the keyword arguments (store contract \<^verbatim>\<open>createTransaction\<close>);
  without a keyword argument \<^verbatim>\<open>double_entry_id\<close> is null. \<^verbatim>\<open>serializer.data\<close> is the
  record of \<^verbatim>\<open>serializer.instance\<close> at the moment it is read.
\<close>

definition serializer_save :: "store \<Rightarrow> nat \<Rightarrow> int \<Rightarrow> nat option \<Rightarrow> store \<times> transaction" where
  "serializer_save s uid val de = transaction_insert s uid val de"

section \<open>Creating transactions\<close>

text \<open>
  \<^verbatim>\<open>UserTransactionViewSet.create_single_entry_transaction\<close>: the block under
  \<^verbatim>\<open>transaction.atomic()\<close>, statement by statement, and the operation itself.
\<close>

definition create_single_entry_block ::
  "settings \<Rightarrow> nat \<Rightarrow> int \<Rightarrow> store \<Rightarrow> store \<times> (exn + response)" where
  "create_single_entry_block cfg user_id val s =
     (case get_user s user_id of
        None \<Rightarrow> (s, Inl DoesNotExist)
      | Some usr \<Rightarrow>
          (case is_valid cfg s user_id val of
             Some e \<Rightarrow> (s, Inl e)
           | None \<Rightarrow>
               (let (s1, inst) = serializer_save s user_id val None;
                    usr' = usr\<lparr>balance := balance usr + val\<rparr>;
                    s2 = user_save s1 usr'
                in (s2, Inr (Response (TransactionData inst) HTTP_201_CREATED)))))"

definition create_single_entry_transaction ::
  "settings \<Rightarrow> nat \<Rightarrow> int \<Rightarrow> store \<Rightarrow> store \<times> (exn + response)" where
  "create_single_entry_transaction cfg user_id val =
     atomic (create_single_entry_block cfg user_id val)"

text \<open>
  \<^verbatim>\<open>UserTransactionViewSet.create_double_entry_transactions\<close>. Both accounts are read
  first, the destination before the source; each is a copy of its row. The two balance
  updates write these copies back, the source first.
\<close>

definition create_double_entry_block ::
  "settings \<Rightarrow> nat \<Rightarrow> nat \<Rightarrow> int \<Rightarrow> store \<Rightarrow> store \<times> (exn + response)" where
  "create_double_entry_block cfg src_account_id dst_account_id val s =
     (case get_user s dst_account_id of
        None \<Rightarrow> (s, Inl DoesNotExist)
      | Some dst_account \<Rightarrow>
     (case get_user s src_account_id of
        None \<Rightarrow> (s, Inl DoesNotExist)
      | Some src_account \<Rightarrow>
     (case is_valid cfg s (u_id src_account) val of
        Some e \<Rightarrow> (s, Inl e)
      | None \<Rightarrow>
     (case is_valid cfg s (u_id dst_account) (- val) of
        Some e \<Rightarrow> (s, Inl e)
      | None \<Rightarrow>
          (let (s1, inst1) = serializer_save s (u_id src_account) val None;
               (s2, inst2) = serializer_save s1 (u_id dst_account) (- val) (Some (tx_id inst1));
               inst1' = inst1\<lparr>double_entry_id := Some (tx_id inst2)\<rparr>;
               s3 = transaction_save s2 inst1';
               src_account' = src_account\<lparr>balance := balance src_account + val\<rparr>;
               s4 = user_save s3 src_account';
               dst_account' = dst_account\<lparr>balance := balance dst_account + - val\<rparr>;
               s5 = user_save s4 dst_account'
           in (s5, Inr (Response (TransactionData inst1') HTTP_201_CREATED)))))))"

definition create_double_entry_transactions ::
  "settings \<Rightarrow> nat \<Rightarrow> nat \<Rightarrow> int \<Rightarrow> store \<Rightarrow> store \<times> (exn + response)" where
  "create_double_entry_transactions cfg src_account_id dst_account_id val =
     atomic (create_double_entry_block cfg src_account_id dst_account_id val)"

text \<open>
  The \<^verbatim>\<open>except\<close> clauses of \<^verbatim>\<open>UserTransactionViewSet.create\<close>, the same three in both
  branches. Any other exception leaves the view unhandled.
\<close>

definition handle_create :: "store \<times> (exn + response) \<Rightarrow> store \<times> (exn + response)" where
  "handle_create r =
     (case r of
        (s, Inl UserNotFound) \<Rightarrow> (s, Inr (Response (Msg (ExnMsg UserNotFound)) HTTP_404_NOT_FOUND))
      | (s, Inl TransactionValueZero) \<Rightarrow>
          (s, Inr (Response (Msg (ExnMsg TransactionValueZero)) HTTP_400_BAD_REQUEST))
      | (s, Inl TransactionValueError) \<Rightarrow>
          (s, Inr (Response (Msg (ExnMsg TransactionValueError)) HTTP_403_FORBIDDEN))
      | (s, Inl e) \<Rightarrow> (s, Inl e)
      | (s, Inr resp) \<Rightarrow> (s, Inr resp))"

text \<open>
  \<^verbatim>\<open>UserTransactionViewSet.create\<close>, the handler of
  \<^verbatim>\<open>POST /users/{user_pk}/transactions\<close> with the request fields \<^verbatim>\<open>value\<close> and
  \<^verbatim>\<open>dst\<close> (\<open>None\<close>: the field is absent).
\<close>

definition UserTransactionViewSet_create ::
  "settings \<Rightarrow> nat \<Rightarrow> int option \<Rightarrow> nat option \<Rightarrow> store \<Rightarrow> store \<times> (exn + response)" where
  "UserTransactionViewSet_create cfg user_pk val_field dst_field s =
     (case val_field of
        None \<Rightarrow> (s, Inr (Response (Msg ValueMissingMsg) HTTP_400_BAD_REQUEST))
      | Some val \<Rightarrow>
          (case dst_field of
             None \<Rightarrow> handle_create (create_single_entry_transaction cfg user_pk val s)
           | Some target_account_id \<Rightarrow>
               handle_create
                 (create_double_entry_transactions cfg user_pk target_account_id val s)))"

section \<open>Reading users and transactions\<close>

text \<open>
  Modelled from the spec: the models module is missing from the sources.
  \<^verbatim>\<open>User.to_full_dict\<close> is the full record of a user, \<^verbatim>\<open>User.to_dict\<close> the summary
  that omits the mail address, \<^verbatim>\<open>Transaction.to_dict\<close> the record of a transaction, and
  \<^verbatim>\<open>User.calc_balance\<close> the sum of the amounts of the transactions of the user.
\<close>

definition to_full_dict :: "user \<Rightarrow> user_full_dict" where
  "to_full_dict u =
     \<lparr>fd_id = u_id u, fd_name = name u, fd_balance = balance u,
      fd_mail_address = mail_address u\<rparr>"

definition to_dict :: "user \<Rightarrow> user_dict" where
  "to_dict u = \<lparr>d_id = u_id u, d_name = name u, d_balance = balance u\<rparr>"

definition transaction_to_dict :: "transaction \<Rightarrow> transaction" where
  "transaction_to_dict t = t"

definition calc_balance :: "store \<Rightarrow> user \<Rightarrow> int" where
  "calc_balance s u =
     sum_list (map tx_value (filter (\<lambda>t. tx_user t = u_id u) (transactions s)))"

text \<open>
  The framework's \<^verbatim>\<open>LimitOffsetPagination\<close>, as the views configure it. The query
  parameters are strings; \<open>py_int\<close> stands for Python's \<^verbatim>\<open>int()\<close> on a string, with
  \<open>None\<close> for its \<^verbatim>\<open>ValueError\<close>.
\<close>

record paginator =
  max_limit :: "int option"
  default_limit :: int

definition positive_int :: "(string \<Rightarrow> int option) \<Rightarrow> string \<Rightarrow> bool \<Rightarrow> int option \<Rightarrow> int option" where
  "positive_int py_int integer_string strict cutoff =
     (case py_int integer_string of
        None \<Rightarrow> None
      | Some ret \<Rightarrow>
          if ret < 0 \<or> (ret = 0 \<and> strict) then None
          else (case cutoff of
                  None \<Rightarrow> Some ret
                | Some c \<Rightarrow> if c \<noteq> 0 then Some (min ret c) else Some ret))"

definition get_limit :: "(string \<Rightarrow> int option) \<Rightarrow> paginator \<Rightarrow> (string \<rightharpoonup> string) \<Rightarrow> int" where
  "get_limit py_int p query_params =
     (case query_params ''limit'' of
        None \<Rightarrow> default_limit p
      | Some str \<Rightarrow>
          (case positive_int py_int str True (max_limit p) of
             None \<Rightarrow> default_limit p
           | Some l \<Rightarrow> l))"

definition get_offset :: "(string \<Rightarrow> int option) \<Rightarrow> (string \<rightharpoonup> string) \<Rightarrow> int" where
  "get_offset py_int query_params =
     (case query_params ''offset'' of
        None \<Rightarrow> 0
      | Some str \<Rightarrow>
          (case positive_int py_int str False None of
             None \<Rightarrow> 0
           | Some off \<Rightarrow> off))"

text \<open>
  \<^verbatim>\<open>paginate_queryset\<close> returns the rows of the page; the paginator keeps the limit, the
  offset and the count, which the views read afterwards. Here all four come back as one
  page record.
\<close>

definition paginate_queryset ::
  "(string \<Rightarrow> int option) \<Rightarrow> paginator \<Rightarrow> 'a list \<Rightarrow> (string \<rightharpoonup> string) \<Rightarrow> 'a page" where
  "paginate_queryset py_int p queryset query_params =
     (let lim = get_limit py_int p query_params;
          cnt = int (length queryset);
          off = get_offset py_int query_params
      in \<lparr>entries = (if cnt = 0 \<or> off > cnt then []
                      else take (nat lim) (drop (nat off) queryset)),
          limit = lim, offset = off, overall_count = cnt\<rparr>)"

text \<open>The paginator of all three list views: \<^verbatim>\<open>max_limit = 250\<close>, \<^verbatim>\<open>default_limit = 100\<close>.\<close>

definition view_paginator :: paginator where
  "view_paginator = \<lparr>max_limit = Some 250, default_limit = 100\<rparr>"

definition map_page :: "('a \<Rightarrow> 'b) \<Rightarrow> 'a page \<Rightarrow> 'b page" where
  "map_page f pg =
     \<lparr>entries = map f (entries pg), limit = limit pg, offset = offset pg,
      overall_count = overall_count pg\<rparr>"

text \<open>\<^verbatim>\<open>UserViewSet.list\<close>, the handler of \<^verbatim>\<open>GET /users\<close>.\<close>

definition UserViewSet_list :: "(string \<Rightarrow> int option) \<Rightarrow> (string \<rightharpoonup> string) \<Rightarrow> store \<Rightarrow> response" where
  "UserViewSet_list py_int query_params s =
     (let pg = paginate_queryset py_int view_paginator (filter active (users s)) query_params
      in Response (UserPage (map_page to_dict pg)) HTTP_200_OK)"

text \<open>
  \<^verbatim>\<open>UserViewSet.retrieve\<close>, the handler of \<^verbatim>\<open>GET /users/{pk}\<close>. Without an explicit
  status a response has the status 200.
\<close>

definition UserViewSet_retrieve :: "nat \<Rightarrow> store \<Rightarrow> response" where
  "UserViewSet_retrieve pk s =
     (case get_user s pk of
        None \<Rightarrow> Response (Msg (UserNotFoundMsg pk)) HTTP_404_NOT_FOUND
      | Some usr \<Rightarrow> Response (UserData (to_full_dict usr)) HTTP_200_OK)"

text \<open>\<^verbatim>\<open>UserTransactionViewSet.list\<close>, the handler of \<^verbatim>\<open>GET /users/{user_pk}/transactions\<close>.\<close>

definition UserTransactionViewSet_list ::
  "(string \<Rightarrow> int option) \<Rightarrow> (string \<rightharpoonup> string) \<Rightarrow> nat \<Rightarrow> store \<Rightarrow> response" where
  "UserTransactionViewSet_list py_int query_params user_pk s =
     (case get_user s user_pk of
        None \<Rightarrow> Response (Msg (UserNotFoundMsg user_pk)) HTTP_404_NOT_FOUND
      | Some usr \<Rightarrow>
          (let pg = paginate_queryset py_int view_paginator
                      (filter (\<lambda>t. tx_user t = u_id usr) (transactions s)) query_params
           in Response (TransactionPage (map_page transaction_to_dict pg)) HTTP_200_OK))"

text \<open>
  \<^verbatim>\<open>UserTransactionViewSet.retrieve\<close>, the handler of
  \<^verbatim>\<open>GET /users/{user_pk}/transactions/{pk}\<close>. The user is read with no \<^verbatim>\<open>try\<close> around
  it, so \<^verbatim>\<open>User.DoesNotExist\<close> leaves the view.
\<close>

definition UserTransactionViewSet_retrieve :: "nat \<Rightarrow> nat \<Rightarrow> store \<Rightarrow> exn + response" where
  "UserTransactionViewSet_retrieve pk user_pk s =
     (case get_user s user_pk of
        None \<Rightarrow> Inl DoesNotExist
      | Some usr \<Rightarrow>
          (case filter (\<lambda>t. tx_user t = u_id usr \<and> tx_id t = pk) (transactions s) of
             [] \<Rightarrow> Inr (Response (Msg TransactionNotFoundMsg) HTTP_404_NOT_FOUND)
           | [t] \<Rightarrow> Inr (Response (TransactionData (transaction_to_dict t)) HTTP_200_OK)
           | _ \<Rightarrow> Inl AssertionError))"

text \<open>\<^verbatim>\<open>TransactionViewSet.list\<close>, the handler of \<^verbatim>\<open>GET /transactions\<close>.\<close>

definition TransactionViewSet_list ::
  "(string \<Rightarrow> int option) \<Rightarrow> (string \<rightharpoonup> string) \<Rightarrow> store \<Rightarrow> response" where
  "TransactionViewSet_list py_int query_params s =
     (let pg = paginate_queryset py_int view_paginator (transactions s) query_params
      in Response (TransactionPage (map_page transaction_to_dict pg)) HTTP_200_OK)"

text \<open>
  \<^verbatim>\<open>DebugViewSet.check_balance\<close>: the stored balance of every user against the sum of
  the user's transactions.
\<close>

definition check_balance :: "store \<Rightarrow> string" where
  "check_balance s =
     (if list_all (\<lambda>u. balance u = calc_balance s u) (users s)
      then ''Everything matches'' else ''Differences detected'')"

section \<open>Invariants of the store\<close>

text \<open>
  Looking a transaction up by its primary key, as \<^verbatim>\<open>Transaction.objects.filter(id=pk)\<close>
  does in \<^verbatim>\<open>TransactionViewSet.retrieve\<close>.
\<close>

definition get_transaction :: "store \<Rightarrow> nat \<Rightarrow> transaction option" where
  "get_transaction s k = find (\<lambda>t. tx_id t = k) (transactions s)"

text \<open>
  What the database guarantees of the auto-increment key: every key in the table was
  handed out before, so it lies below the counter.
\<close>

definition fresh_ids :: "store \<Rightarrow> bool" where
  "fresh_ids s = list_all (\<lambda>t. tx_id t < next_transaction_id s) (transactions s)"



section \<open>Example data\<close>

definition example_settings :: settings where
  "example_settings = \<lparr>lower_bound = - 1000, upper_bound = 1000\<rparr>"

definition alice :: user where
  "alice = \<lparr>u_id = 1, name = ''alice'', mail_address = None, balance = 0, active = True\<rparr>"

definition bob :: user where
  "bob = \<lparr>u_id = 2, name = ''bob'', mail_address = Some ''bob@example.org'', balance = 0,
          active = False\<rparr>"

definition example_store :: store where
  "example_store = \<lparr>users = [alice, bob], transactions = [], next_transaction_id = 1\<rparr>"

text \<open>A stand-in for Python's \<^verbatim>\<open>int()\<close> on the two strings the examples use.\<close>

definition example_int :: "string \<Rightarrow> int option" where
  "example_int str = (if str = ''500'' then Some 500 else if str = ''1'' then Some 1 else None)"

text \<open>The example store after the transfer of 30 between user 1 and user 2.\<close>

definition example_leg1 :: transaction where
  "example_leg1 = \<lparr>tx_id = 1, tx_user = 1, tx_value = 30, double_entry_id = Some 2\<rparr>"

definition example_leg2 :: transaction where
  "example_leg2 = \<lparr>tx_id = 2, tx_user = 2, tx_value = - 30, double_entry_id = Some 1\<rparr>"

definition example_after_transfer :: store where
  "example_after_transfer =
     \<lparr>users = [alice\<lparr>balance := 30\<rparr>, bob\<lparr>balance := - 30\<rparr>],
      transactions = [example_leg1, example_leg2], next_transaction_id = 3\<rparr>"

text \<open>The example store after user 1 transfers 30 to user 1.\<close>

definition example_self_leg1 :: transaction where
  "example_self_leg1 = \<lparr>tx_id = 1, tx_user = 1, tx_value = 30, double_entry_id = Some 2\<rparr>"

definition example_self_leg2 :: transaction where
  "example_self_leg2 = \<lparr>tx_id = 2, tx_user = 1, tx_value = - 30, double_entry_id = Some 1\<rparr>"

definition example_after_self_transfer :: store where
  "example_after_self_transfer =
     \<lparr>users = [alice\<lparr>balance := - 30\<rparr>, bob],
      transactions = [example_self_leg1, example_self_leg2], next_transaction_id = 3\<rparr>"

section \<open>Facts about the object-relational layer\<close>

lemma get_user_id: "get_user s k = Some u \<Longrightarrow> u_id u = k"
  by (auto simp: get_user_def find_Some_iff)

lemma create_double_entry_block_fail:
  assumes "get_user s src = None \<or> get_user s dst = None \<or>
           validate_value cfg val \<noteq> None \<or> validate_value cfg (- val) \<noteq> None"
  shows "\<exists>e. create_double_entry_block cfg src dst val s = (s, Inl e)"
  using assms
  by (auto simp: create_double_entry_block_def is_valid_def dest: get_user_id split: option.splits)

lemma atomic_raise: "atomic blk s = (s', Inl e) \<Longrightarrow> s' = s"
  by (auto simp: atomic_def split: prod.splits sum.splits)

lemma handle_create_store: "fst (handle_create r) = fst r"
  by (auto simp: handle_create_def split: prod.splits sum.splits exn.splits)

lemma example_users:
  "get_user example_store 1 = Some alice" "get_user example_store 2 = Some bob"
  "get_user example_store 3 = None"
  by (simp_all add: get_user_def example_store_def alice_def bob_def)

section \<open>Failed double-entry creation\<close>

text \<open>
  Claim C1. A double-entry creation that fails, because the source or the destination
  user is missing or because the amount of either leg does not validate, raises and leaves
  the store as it was: no transaction row is added and no balance is changed. The block
  itself raises before its first write, so nothing has to be rolled back, and the view
  \<^verbatim>\<open>POST /users/{id}/transactions\<close> hands the same store on.
\<close>

theorem failed_double_entry_leaves_store:
  assumes "get_user s src_account_id = None \<or> get_user s dst_account_id = None \<or>
           validate_value cfg val \<noteq> None \<or> validate_value cfg (- val) \<noteq> None"
  shows "\<exists>e. create_double_entry_block cfg src_account_id dst_account_id val s = (s, Inl e) \<and>
             create_double_entry_transactions cfg src_account_id dst_account_id val s = (s, Inl e) \<and>
             fst (UserTransactionViewSet_create cfg src_account_id (Some val) (Some dst_account_id) s) = s"
proof -
  from create_double_entry_block_fail [OF assms]
  obtain e where blk: "create_double_entry_block cfg src_account_id dst_account_id val s = (s, Inl e)"
    by blast
  then have op: "create_double_entry_transactions cfg src_account_id dst_account_id val s = (s, Inl e)"
    by (simp add: create_double_entry_transactions_def atomic_def)
  have "fst (UserTransactionViewSet_create cfg src_account_id (Some val) (Some dst_account_id) s) = s"
    by (simp add: UserTransactionViewSet_create_def handle_create_store op)
  with blk op show ?thesis by blast
qed

text \<open>
  An instance: a transfer of 5000, outside the range of the example settings, from user 1
  to the missing user 3.
\<close>

theorem failed_double_entry_leaves_store_witness:
  "(get_user example_store 1 = None \<or> get_user example_store 3 = None \<or>
    validate_value example_settings 5000 \<noteq> None \<or> validate_value example_settings (- 5000) \<noteq> None) \<and>
   (\<exists>e. create_double_entry_block example_settings 1 3 5000 example_store = (example_store, Inl e) \<and>
        create_double_entry_transactions example_settings 1 3 5000 example_store = (example_store, Inl e) \<and>
        fst (UserTransactionViewSet_create example_settings 1 (Some 5000) (Some 3) example_store)
          = example_store)"
proof -
  have h: "get_user example_store 1 = None \<or> get_user example_store 3 = None \<or>
    validate_value example_settings 5000 \<noteq> None \<or> validate_value example_settings (- 5000) \<noteq> None"
    by (simp add: example_users)
  from failed_double_entry_leaves_store [OF h] h show ?thesis by blast
qed

section \<open>Double-entry creation\<close>

lemma find_user_update_key:
  "u_id u = j \<Longrightarrow>
   find (\<lambda>r. u_id r = k) (map (\<lambda>r. if u_id r = j then u else r) xs) =
     (if k = j then map_option (\<lambda>_. u) (find (\<lambda>r. u_id r = k) xs)
      else find (\<lambda>r. u_id r = k) xs)"
  by (induction xs) auto

lemma find_append_tx:
  "find P (xs @ ys) = (case find P xs of None \<Rightarrow> find P ys | Some x \<Rightarrow> Some x)"
  by (induction xs) auto

lemma fresh_ids_no_row:
  "fresh_ids s \<Longrightarrow> find (\<lambda>t. tx_id t = next_transaction_id s + k) (transactions s) = None"
  by (auto simp: fresh_ids_def find_None_iff list_all_iff)

lemma fresh_ids_save_new:
  "fresh_ids s \<Longrightarrow>
   map (\<lambda>r. if tx_id r = next_transaction_id s then t else r) (transactions s) = transactions s"
  by (rule map_idI) (auto simp: fresh_ids_def list_all_iff)

lemma create_double_entry_block_ok:
  assumes "get_user s src = Some a" "get_user s dst = Some b"
          "validate_value cfg val = None" "validate_value cfg (- val) = None"
  shows "create_double_entry_block cfg src dst val s =
     (let n = next_transaction_id s;
          leg1 = \<lparr>tx_id = n, tx_user = src, tx_value = val, double_entry_id = Some (Suc n)\<rparr>;
          leg2 = \<lparr>tx_id = Suc n, tx_user = dst, tx_value = - val, double_entry_id = Some n\<rparr>
      in (\<lparr>users = map (\<lambda>r. if u_id r = dst then b\<lparr>balance := balance b + - val\<rparr> else r)
                    (map (\<lambda>r. if u_id r = src then a\<lparr>balance := balance a + val\<rparr> else r) (users s)),
           transactions = map (\<lambda>r. if tx_id r = n then leg1 else r) (transactions s) @ [leg1, leg2],
           next_transaction_id = Suc (Suc n)\<rparr>,
          Inr (Response (TransactionData leg1) HTTP_201_CREATED)))"
  using assms get_user_id[OF assms(1)] get_user_id[OF assms(2)]
  by (simp add: create_double_entry_block_def is_valid_def serializer_save_def
      transaction_insert_def transaction_save_def user_save_def Let_def)

lemma create_double_entry_success_pre:
  assumes "create_double_entry_transactions cfg src dst val s = (s', Inr resp)"
  shows "\<exists>a b. get_user s src = Some a \<and> get_user s dst = Some b \<and>
           validate_value cfg val = None \<and> validate_value cfg (- val) = None"
proof (rule ccontr)
  assume "\<not> ?thesis"
  then have "get_user s src = None \<or> get_user s dst = None \<or>
           validate_value cfg val \<noteq> None \<or> validate_value cfg (- val) \<noteq> None"
    by auto
  from create_double_entry_block_fail [OF this] assms show False
    by (auto simp: create_double_entry_transactions_def atomic_def)
qed

lemma create_double_entry_success:
  assumes "get_user s src = Some a" "get_user s dst = Some b"
          "validate_value cfg val = None" "validate_value cfg (- val) = None" "fresh_ids s"
  shows "create_double_entry_transactions cfg src dst val s =
     (let n = next_transaction_id s;
          leg1 = \<lparr>tx_id = n, tx_user = src, tx_value = val, double_entry_id = Some (Suc n)\<rparr>;
          leg2 = \<lparr>tx_id = Suc n, tx_user = dst, tx_value = - val, double_entry_id = Some n\<rparr>
      in (\<lparr>users = map (\<lambda>r. if u_id r = dst then b\<lparr>balance := balance b + - val\<rparr> else r)
                    (map (\<lambda>r. if u_id r = src then a\<lparr>balance := balance a + val\<rparr> else r) (users s)),
           transactions = transactions s @ [leg1, leg2],
           next_transaction_id = Suc (Suc n)\<rparr>,
          Inr (Response (TransactionData leg1) HTTP_201_CREATED)))"
  using create_double_entry_block_ok [OF assms(1-4)] fresh_ids_save_new [OF assms(5)]
  by (simp add: create_double_entry_transactions_def atomic_def Let_def)

text \<open>
  Claim C4. A successful double-entry creation between two distinct users, on a store
  whose transaction keys all lie below the counter: both users exist, the balance of the
  source user grows by the amount and the balance of the destination user falls by it, two
  rows are appended, leg 1 for the source with the amount and leg 2 for the destination
  with the negated amount, each pointing to the other, and the response is leg 1 as it is
  stored, with its final \<^verbatim>\<open>double_entry_id\<close>, and status 201.
\<close>

theorem double_entry_effect:
  assumes "create_double_entry_transactions cfg src_account_id dst_account_id val s = (s', Inr resp)"
    and "src_account_id \<noteq> dst_account_id" and "fresh_ids s"
  shows "get_user s src_account_id \<noteq> None \<and> get_user s dst_account_id \<noteq> None \<and>
         get_user s' src_account_id =
           map_option (\<lambda>u. u\<lparr>balance := balance u + val\<rparr>) (get_user s src_account_id) \<and>
         get_user s' dst_account_id =
           map_option (\<lambda>u. u\<lparr>balance := balance u - val\<rparr>) (get_user s dst_account_id) \<and>
         (let n = next_transaction_id s;
              leg1 = \<lparr>tx_id = n, tx_user = src_account_id, tx_value = val,
                      double_entry_id = Some (Suc n)\<rparr>;
              leg2 = \<lparr>tx_id = Suc n, tx_user = dst_account_id, tx_value = - val,
                      double_entry_id = Some n\<rparr>
          in transactions s' = transactions s @ [leg1, leg2] \<and>
             get_transaction s' n = Some leg1 \<and>
             get_transaction s' (Suc n) = Some leg2 \<and>
             resp = Response (TransactionData leg1) HTTP_201_CREATED)"
proof -
  from create_double_entry_success_pre [OF assms(1)]
  obtain a b where pre: "get_user s src_account_id = Some a" "get_user s dst_account_id = Some b"
    "validate_value cfg val = None" "validate_value cfg (- val) = None"
    by blast
  note ids = get_user_id [OF pre(1)] get_user_id [OF pre(2)]
  note eq = create_double_entry_success [OF pre assms(3)]
  have s': "s' = \<lparr>users = map (\<lambda>r. if u_id r = dst_account_id then b\<lparr>balance := balance b + - val\<rparr> else r)
                    (map (\<lambda>r. if u_id r = src_account_id then a\<lparr>balance := balance a + val\<rparr> else r) (users s)),
           transactions = transactions s @
             [\<lparr>tx_id = next_transaction_id s, tx_user = src_account_id, tx_value = val,
               double_entry_id = Some (Suc (next_transaction_id s))\<rparr>,
              \<lparr>tx_id = Suc (next_transaction_id s), tx_user = dst_account_id, tx_value = - val,
               double_entry_id = Some (next_transaction_id s)\<rparr>],
           next_transaction_id = Suc (Suc (next_transaction_id s))\<rparr>"
    and resp: "resp = Response (TransactionData \<lparr>tx_id = next_transaction_id s, tx_user = src_account_id,
               tx_value = val, double_entry_id = Some (Suc (next_transaction_id s))\<rparr>) HTTP_201_CREATED"
    using eq assms(1) by (simp_all add: Let_def)
  have src: "get_user s' src_account_id = Some (a\<lparr>balance := balance a + val\<rparr>)"
    using pre(1) assms(2) ids
    by (simp add: s' get_user_def find_user_update_key del: map_map)
  have dst: "get_user s' dst_account_id = Some (b\<lparr>balance := balance b - val\<rparr>)"
    using pre(2) assms(2) ids
    by (simp add: s' get_user_def find_user_update_key del: map_map)
  have none0: "find (\<lambda>t. tx_id t = next_transaction_id s) (transactions s) = None"
    using fresh_ids_no_row [OF assms(3), of 0] by simp
  have none1: "find (\<lambda>t. tx_id t = Suc (next_transaction_id s)) (transactions s) = None"
    using fresh_ids_no_row [OF assms(3), of 1] by simp
  have legs: "get_transaction s' (next_transaction_id s) =
       Some \<lparr>tx_id = next_transaction_id s, tx_user = src_account_id, tx_value = val,
               double_entry_id = Some (Suc (next_transaction_id s))\<rparr>"
     "get_transaction s' (Suc (next_transaction_id s)) =
       Some \<lparr>tx_id = Suc (next_transaction_id s), tx_user = dst_account_id, tx_value = - val,
               double_entry_id = Some (next_transaction_id s)\<rparr>"
    by (simp_all add: s' get_transaction_def find_append_tx none0 none1)
  show ?thesis
    using pre(1,2) src dst legs resp by (simp add: Let_def s')
qed

lemma example_fresh: "fresh_ids example_store"
  by (simp add: fresh_ids_def example_store_def)

lemma example_valid:
  "validate_value example_settings 30 = None" "validate_value example_settings (- 30) = None"
  "validate_value example_settings 0 = Some TransactionValueZero"
  "validate_value example_settings 5000 = Some TransactionValueError"
  by (simp_all add: validate_value_def example_settings_def)

lemma example_transfer:
  "create_double_entry_transactions example_settings 1 2 30 example_store =
     (example_after_transfer, Inr (Response (TransactionData example_leg1) HTTP_201_CREATED))"
  using create_double_entry_success [OF example_users(1) example_users(2) example_valid(1,2) example_fresh]
  by (simp add: Let_def example_store_def example_after_transfer_def example_leg1_def
      example_leg2_def alice_def bob_def numeral_2_eq_2 numeral_3_eq_3)

text \<open>An instance: the transfer of 30 between user 1 and user 2 of the example store.\<close>

theorem double_entry_effect_witness:
  "create_double_entry_transactions example_settings 1 2 30 example_store =
     (example_after_transfer, Inr (Response (TransactionData example_leg1) HTTP_201_CREATED)) \<and>
   (1::nat) \<noteq> 2 \<and> fresh_ids example_store \<and>
   get_user example_store 1 \<noteq> None \<and> get_user example_store 2 \<noteq> None \<and>
   get_user example_after_transfer 1 =
     map_option (\<lambda>u. u\<lparr>balance := balance u + 30\<rparr>) (get_user example_store 1) \<and>
   get_user example_after_transfer 2 =
     map_option (\<lambda>u. u\<lparr>balance := balance u - 30\<rparr>) (get_user example_store 2) \<and>
   (let n = next_transaction_id example_store;
        leg1 = \<lparr>tx_id = n, tx_user = 1, tx_value = 30, double_entry_id = Some (Suc n)\<rparr>;
        leg2 = \<lparr>tx_id = Suc n, tx_user = 2, tx_value = - 30, double_entry_id = Some n\<rparr>
    in transactions example_after_transfer = transactions example_store @ [leg1, leg2] \<and>
       get_transaction example_after_transfer n = Some leg1 \<and>
       get_transaction example_after_transfer (Suc n) = Some leg2 \<and>
       Response (TransactionData example_leg1) HTTP_201_CREATED =
         Response (TransactionData leg1) HTTP_201_CREATED)"
proof -
  have ne: "(1::nat) \<noteq> 2" by simp
  from double_entry_effect [OF example_transfer ne example_fresh] example_transfer ne example_fresh
  show ?thesis by blast
qed

section \<open>Single-entry creation\<close>

lemma create_single_entry_block_fail:
  assumes "get_user s user_id = None \<or> validate_value cfg val \<noteq> None"
  shows "\<exists>e. create_single_entry_block cfg user_id val s = (s, Inl e)"
  using assms
  by (auto simp: create_single_entry_block_def is_valid_def split: option.splits)

lemma create_single_entry_success:
  assumes "get_user s user_id = Some u" "validate_value cfg val = None"
  shows "create_single_entry_transaction cfg user_id val s =
     (let t = \<lparr>tx_id = next_transaction_id s, tx_user = user_id, tx_value = val,
                double_entry_id = None\<rparr>
      in (\<lparr>users = map (\<lambda>r. if u_id r = user_id then u\<lparr>balance := balance u + val\<rparr> else r) (users s),
           transactions = transactions s @ [t],
           next_transaction_id = Suc (next_transaction_id s)\<rparr>,
          Inr (Response (TransactionData t) HTTP_201_CREATED)))"
  using assms get_user_id [OF assms(1)]
  by (simp add: create_single_entry_transaction_def atomic_def create_single_entry_block_def
      is_valid_def serializer_save_def transaction_insert_def user_save_def Let_def)

text \<open>
  Claim C6. A single-entry creation for an existing user with an amount that validates
  succeeds: it appends exactly one transaction row, with that user, that amount and no
  partner, adds the amount to the balance of that user, leaves every other user alone and
  returns the created record with status 201. When the operation raises, the store is the
  one before the call, so the row and the balance update persist together or not at all;
  and it succeeds only for an existing user and a valid amount.
\<close>

theorem single_entry_effect:
  "(get_user s user_id = Some u \<and> validate_value cfg val = None \<longrightarrow>
      (let t = \<lparr>tx_id = next_transaction_id s, tx_user = user_id, tx_value = val,
                 double_entry_id = None\<rparr>
       in \<exists>s'. create_single_entry_transaction cfg user_id val s =
                  (s', Inr (Response (TransactionData t) HTTP_201_CREATED)) \<and>
               transactions s' = transactions s @ [t] \<and>
               get_user s' user_id = Some (u\<lparr>balance := balance u + val\<rparr>) \<and>
               (\<forall>k. k \<noteq> user_id \<longrightarrow> get_user s' k = get_user s k))) \<and>
   (\<forall>s' e. create_single_entry_transaction cfg user_id val s = (s', Inl e) \<longrightarrow> s' = s) \<and>
   (\<forall>s' resp. create_single_entry_transaction cfg user_id val s = (s', Inr resp) \<longrightarrow>
      get_user s user_id \<noteq> None \<and> validate_value cfg val = None)"
proof (intro conjI impI allI)
  assume pre: "get_user s user_id = Some u \<and> validate_value cfg val = None"
  then have g: "get_user s user_id = Some u" and v: "validate_value cfg val = None" by simp_all
  note id = get_user_id [OF g]
  show "let t = \<lparr>tx_id = next_transaction_id s, tx_user = user_id, tx_value = val,
                 double_entry_id = None\<rparr>
       in \<exists>s'. create_single_entry_transaction cfg user_id val s =
                  (s', Inr (Response (TransactionData t) HTTP_201_CREATED)) \<and>
               transactions s' = transactions s @ [t] \<and>
               get_user s' user_id = Some (u\<lparr>balance := balance u + val\<rparr>) \<and>
               (\<forall>k. k \<noteq> user_id \<longrightarrow> get_user s' k = get_user s k)"
    using g id
    by (simp add: create_single_entry_success [OF g v] Let_def get_user_def find_user_update_key)
next
  fix s' e
  assume "create_single_entry_transaction cfg user_id val s = (s', Inl e)"
  then show "s' = s"
    by (simp add: create_single_entry_transaction_def atomic_raise)
next
  fix s' resp
  assume ok: "create_single_entry_transaction cfg user_id val s = (s', Inr resp)"
  have "\<not> (get_user s user_id = None \<or> validate_value cfg val \<noteq> None)"
  proof
    assume "get_user s user_id = None \<or> validate_value cfg val \<noteq> None"
    from create_single_entry_block_fail [OF this] ok show False
      by (auto simp: create_single_entry_transaction_def atomic_def)
  qed
  then show "get_user s user_id \<noteq> None" and "validate_value cfg val = None" by simp_all
qed

text \<open>An instance: user 1 of the example store books 30.\<close>

theorem single_entry_effect_witness:
  "get_user example_store 1 = Some alice \<and> validate_value example_settings 30 = None \<and>
   (let t = \<lparr>tx_id = next_transaction_id example_store, tx_user = 1, tx_value = 30,
              double_entry_id = None\<rparr>
    in \<exists>s'. create_single_entry_transaction example_settings 1 30 example_store =
               (s', Inr (Response (TransactionData t) HTTP_201_CREATED)) \<and>
            transactions s' = transactions example_store @ [t] \<and>
            get_user s' 1 = Some (alice\<lparr>balance := balance alice + 30\<rparr>) \<and>
            (\<forall>k. k \<noteq> 1 \<longrightarrow> get_user s' k = get_user example_store k))"
  using single_entry_effect [of example_store 1 alice example_settings 30]
    example_users(1) example_valid(1)
  by blast

section \<open>The pairing of double-entry transactions\<close>




lemma handle_create_return: "handle_create (s, Inr resp) = (s, Inr resp)"
  by (simp add: handle_create_def)



lemma example_self_transfer:
  "create_double_entry_transactions example_settings 1 1 30 example_store =
     (example_after_self_transfer,
      Inr (Response (TransactionData example_self_leg1) HTTP_201_CREATED))"
  using create_double_entry_success [OF example_users(1) example_users(1) example_valid(1,2) example_fresh]
  by (simp add: Let_def example_store_def example_after_self_transfer_def example_self_leg1_def
      example_self_leg2_def alice_def bob_def numeral_2_eq_2 numeral_3_eq_3)

lemma example_self_transfer_post:
  "UserTransactionViewSet_create example_settings 1 (Some 30) (Some 1) example_store =
     (example_after_self_transfer,
      Inr (Response (TransactionData example_self_leg1) HTTP_201_CREATED))"
  using example_self_transfer
  by (simp add: UserTransactionViewSet_create_def handle_create_return)




section \<open>Pagination of the list views\<close>

lemma get_limit_view:
  "get_limit py_int view_paginator q =
     (case q ''limit'' of
        None \<Rightarrow> 100
      | Some str \<Rightarrow>
          (case py_int str of
             None \<Rightarrow> 100
           | Some n \<Rightarrow> if 0 < n then min n 250 else 100))"
  by (auto simp: get_limit_def view_paginator_def positive_int_def split: option.splits)

lemma get_limit_bounds:
  "0 < get_limit py_int view_paginator q \<and> get_limit py_int view_paginator q \<le> 250 \<and>
   (q ''limit'' = None \<longrightarrow> get_limit py_int view_paginator q = 100)"
  by (auto simp: get_limit_view split: option.splits)

lemma get_offset_view:
  "get_offset py_int q =
     (case q ''offset'' of
        None \<Rightarrow> 0
      | Some str \<Rightarrow>
          (case py_int str of
             None \<Rightarrow> 0
           | Some m \<Rightarrow> if 0 \<le> m then m else 0))"
  by (auto simp: get_offset_def positive_int_def split: option.splits)

lemma get_offset_bounds:
  "0 \<le> get_offset py_int q \<and> (q ''offset'' = None \<longrightarrow> get_offset py_int q = 0)"
  by (auto simp: get_offset_view split: option.splits)

lemma paginate_view:
  "limit (paginate_queryset py_int view_paginator rows q) = get_limit py_int view_paginator q"
  "offset (paginate_queryset py_int view_paginator rows q) = get_offset py_int q"
  "overall_count (paginate_queryset py_int view_paginator rows q) = int (length rows)"
  "entries (paginate_queryset py_int view_paginator rows q) =
     take (nat (get_limit py_int view_paginator q)) (drop (nat (get_offset py_int q)) rows)"
  by (auto simp: paginate_queryset_def Let_def)

lemma page_of_view:
  fixes f :: "'a \<Rightarrow> 'b"
  assumes "pg = map_page f (paginate_queryset py_int view_paginator rows q)"
  shows "limit pg =
           (case q ''limit'' of
              None \<Rightarrow> 100
            | Some str \<Rightarrow>
                (case py_int str of
                   None \<Rightarrow> 100
                 | Some n \<Rightarrow> if 0 < n then min n 250 else 100)) \<and>
         offset pg =
           (case q ''offset'' of
              None \<Rightarrow> 0
            | Some str \<Rightarrow>
                (case py_int str of
                   None \<Rightarrow> 0
                 | Some m \<Rightarrow> if 0 \<le> m then m else 0)) \<and>
         0 < limit pg \<and> limit pg \<le> 250 \<and> (q ''limit'' = None \<longrightarrow> limit pg = 100) \<and>
         0 \<le> offset pg \<and> (q ''offset'' = None \<longrightarrow> offset pg = 0) \<and>
         overall_count pg = int (length rows) \<and>
         entries pg = map f (take (nat (limit pg)) (drop (nat (offset pg)) rows)) \<and>
         length (entries pg) \<le> 250"
proof -
  have l: "limit pg = get_limit py_int view_paginator q"
    and o: "offset pg = get_offset py_int q"
    and c: "overall_count pg = int (length rows)"
    and e: "entries pg = map f (take (nat (limit pg)) (drop (nat (offset pg)) rows))"
    by (simp_all add: assms map_page_def paginate_view)
  have n250: "nat (get_limit py_int view_paginator q) \<le> 250"
    using get_limit_bounds [of py_int q] by linarith
  have len: "length (entries pg) \<le> 250"
    using n250 by (simp add: e l min_le_iff_disj)
  show ?thesis
    using get_limit_bounds [of py_int q] get_offset_bounds [of py_int q]
      get_limit_view [of py_int q] get_offset_view [of py_int q] c e len
    unfolding l [symmetric] o [symmetric]
    by (intro conjI) blast+
qed

lemma UserViewSet_list_page:
  "UserViewSet_list py_int q s =
     Response (UserPage (map_page to_dict
       (paginate_queryset py_int view_paginator (filter active (users s)) q))) HTTP_200_OK"
  by (simp add: UserViewSet_list_def Let_def)

lemma UserTransactionViewSet_list_page:
  "get_user s user_pk = Some usr \<Longrightarrow>
   UserTransactionViewSet_list py_int q user_pk s =
     Response (TransactionPage (map_page transaction_to_dict
       (paginate_queryset py_int view_paginator
          (filter (\<lambda>t. tx_user t = user_pk) (transactions s)) q))) HTTP_200_OK"
  by (simp add: UserTransactionViewSet_list_def Let_def get_user_id)

lemma TransactionViewSet_list_page:
  "TransactionViewSet_list py_int q s =
     Response (TransactionPage (map_page transaction_to_dict
       (paginate_queryset py_int view_paginator (transactions s) q))) HTTP_200_OK"
  by (simp add: TransactionViewSet_list_def Let_def)

text \<open>
  Claim C9. Each of the three list views pages its rows by offset and limit. The limit it
  reports is the one the request names, cut at 250, and it is 100 when the request names
  none (or a string that is no integer, or an integer that is not positive); so it is
  positive and at most 250. The offset is the one the request names and 0 when the request
  names none (or no integer, or a negative one). The entries are the rows from the offset
  on, at most as many as the limit, and the body consists of the entries, the limit, the
  offset and the overall count, which is the number of all matching rows. The matching
  rows are the active users, the transactions of the user of the path (who has to exist),
  and all transactions.
\<close>

theorem list_views_paginate:
  "(\<exists>pg. UserViewSet_list py_int q s = Response (UserPage pg) HTTP_200_OK \<and>
         limit pg =
           (case q ''limit'' of
              None \<Rightarrow> 100
            | Some str \<Rightarrow>
                (case py_int str of
                   None \<Rightarrow> 100
                 | Some n \<Rightarrow> if 0 < n then min n 250 else 100)) \<and>
         offset pg =
           (case q ''offset'' of
              None \<Rightarrow> 0
            | Some str \<Rightarrow>
                (case py_int str of
                   None \<Rightarrow> 0
                 | Some m \<Rightarrow> if 0 \<le> m then m else 0)) \<and>
         0 < limit pg \<and> limit pg \<le> 250 \<and> (q ''limit'' = None \<longrightarrow> limit pg = 100) \<and>
         0 \<le> offset pg \<and> (q ''offset'' = None \<longrightarrow> offset pg = 0) \<and>
         overall_count pg = int (length (filter active (users s))) \<and>
         entries pg =
           map to_dict (take (nat (limit pg)) (drop (nat (offset pg)) (filter active (users s)))) \<and>
         length (entries pg) \<le> 250) \<and>
   (get_user s user_pk \<noteq> None \<longrightarrow>
      (\<exists>pg. UserTransactionViewSet_list py_int q user_pk s =
               Response (TransactionPage pg) HTTP_200_OK \<and>
         limit pg =
           (case q ''limit'' of
              None \<Rightarrow> 100
            | Some str \<Rightarrow>
                (case py_int str of
                   None \<Rightarrow> 100
                 | Some n \<Rightarrow> if 0 < n then min n 250 else 100)) \<and>
         offset pg =
           (case q ''offset'' of
              None \<Rightarrow> 0
            | Some str \<Rightarrow>
                (case py_int str of
                   None \<Rightarrow> 0
                 | Some m \<Rightarrow> if 0 \<le> m then m else 0)) \<and>
         0 < limit pg \<and> limit pg \<le> 250 \<and> (q ''limit'' = None \<longrightarrow> limit pg = 100) \<and>
         0 \<le> offset pg \<and> (q ''offset'' = None \<longrightarrow> offset pg = 0) \<and>
         overall_count pg = int (length (filter (\<lambda>t. tx_user t = user_pk) (transactions s))) \<and>
         entries pg =
           map transaction_to_dict
             (take (nat (limit pg))
               (drop (nat (offset pg)) (filter (\<lambda>t. tx_user t = user_pk) (transactions s)))) \<and>
         length (entries pg) \<le> 250)) \<and>
   (\<exists>pg. TransactionViewSet_list py_int q s = Response (TransactionPage pg) HTTP_200_OK \<and>
         limit pg =
           (case q ''limit'' of
              None \<Rightarrow> 100
            | Some str \<Rightarrow>
                (case py_int str of
                   None \<Rightarrow> 100
                 | Some n \<Rightarrow> if 0 < n then min n 250 else 100)) \<and>
         offset pg =
           (case q ''offset'' of
              None \<Rightarrow> 0
            | Some str \<Rightarrow>
                (case py_int str of
                   None \<Rightarrow> 0
                 | Some m \<Rightarrow> if 0 \<le> m then m else 0)) \<and>
         0 < limit pg \<and> limit pg \<le> 250 \<and> (q ''limit'' = None \<longrightarrow> limit pg = 100) \<and>
         0 \<le> offset pg \<and> (q ''offset'' = None \<longrightarrow> offset pg = 0) \<and>
         overall_count pg = int (length (transactions s)) \<and>
         entries pg =
           map transaction_to_dict (take (nat (limit pg)) (drop (nat (offset pg)) (transactions s))) \<and>
         length (entries pg) \<le> 250)"
proof (intro conjI impI)
  show "\<exists>pg. UserViewSet_list py_int q s = Response (UserPage pg) HTTP_200_OK \<and>
         limit pg =
           (case q ''limit'' of
              None \<Rightarrow> 100
            | Some str \<Rightarrow>
                (case py_int str of
                   None \<Rightarrow> 100
                 | Some n \<Rightarrow> if 0 < n then min n 250 else 100)) \<and>
         offset pg =
           (case q ''offset'' of
              None \<Rightarrow> 0
            | Some str \<Rightarrow>
                (case py_int str of
                   None \<Rightarrow> 0
                 | Some m \<Rightarrow> if 0 \<le> m then m else 0)) \<and>
         0 < limit pg \<and> limit pg \<le> 250 \<and> (q ''limit'' = None \<longrightarrow> limit pg = 100) \<and>
         0 \<le> offset pg \<and> (q ''offset'' = None \<longrightarrow> offset pg = 0) \<and>
         overall_count pg = int (length (filter active (users s))) \<and>
         entries pg =
           map to_dict (take (nat (limit pg)) (drop (nat (offset pg)) (filter active (users s)))) \<and>
         length (entries pg) \<le> 250"
    by (rule exI [of _ "map_page to_dict
          (paginate_queryset py_int view_paginator (filter active (users s)) q)"],
        rule conjI, rule UserViewSet_list_page, rule page_of_view [OF refl])
next
  assume "get_user s user_pk \<noteq> None"
  then obtain usr where usr: "get_user s user_pk = Some usr" by auto
  show "\<exists>pg. UserTransactionViewSet_list py_int q user_pk s =
               Response (TransactionPage pg) HTTP_200_OK \<and>
         limit pg =
           (case q ''limit'' of
              None \<Rightarrow> 100
            | Some str \<Rightarrow>
                (case py_int str of
                   None \<Rightarrow> 100
                 | Some n \<Rightarrow> if 0 < n then min n 250 else 100)) \<and>
         offset pg =
           (case q ''offset'' of
              None \<Rightarrow> 0
            | Some str \<Rightarrow>
                (case py_int str of
                   None \<Rightarrow> 0
                 | Some m \<Rightarrow> if 0 \<le> m then m else 0)) \<and>
         0 < limit pg \<and> limit pg \<le> 250 \<and> (q ''limit'' = None \<longrightarrow> limit pg = 100) \<and>
         0 \<le> offset pg \<and> (q ''offset'' = None \<longrightarrow> offset pg = 0) \<and>
         overall_count pg = int (length (filter (\<lambda>t. tx_user t = user_pk) (transactions s))) \<and>
         entries pg =
           map transaction_to_dict
             (take (nat (limit pg))
               (drop (nat (offset pg)) (filter (\<lambda>t. tx_user t = user_pk) (transactions s)))) \<and>
         length (entries pg) \<le> 250"
    by (rule exI [of _ "map_page transaction_to_dict
          (paginate_queryset py_int view_paginator
            (filter (\<lambda>t. tx_user t = user_pk) (transactions s)) q)"],
        rule conjI, rule UserTransactionViewSet_list_page [OF usr],
        rule page_of_view [OF refl])
next
  show "\<exists>pg. TransactionViewSet_list py_int q s = Response (TransactionPage pg) HTTP_200_OK \<and>
         limit pg =
           (case q ''limit'' of
              None \<Rightarrow> 100
            | Some str \<Rightarrow>
                (case py_int str of
                   None \<Rightarrow> 100
                 | Some n \<Rightarrow> if 0 < n then min n 250 else 100)) \<and>
         offset pg =
           (case q ''offset'' of
              None \<Rightarrow> 0
            | Some str \<Rightarrow>
                (case py_int str of
                   None \<Rightarrow> 0
                 | Some m \<Rightarrow> if 0 \<le> m then m else 0)) \<and>
         0 < limit pg \<and> limit pg \<le> 250 \<and> (q ''limit'' = None \<longrightarrow> limit pg = 100) \<and>
         0 \<le> offset pg \<and> (q ''offset'' = None \<longrightarrow> offset pg = 0) \<and>
         overall_count pg = int (length (transactions s)) \<and>
         entries pg =
           map transaction_to_dict (take (nat (limit pg)) (drop (nat (offset pg)) (transactions s))) \<and>
         length (entries pg) \<le> 250"
    by (rule exI [of _ "map_page transaction_to_dict
          (paginate_queryset py_int view_paginator (transactions s) q)"],
        rule conjI, rule TransactionViewSet_list_page, rule page_of_view [OF refl])
qed

lemma example_after_transfer_users:
  "get_user example_after_transfer 1 = Some (alice\<lparr>balance := 30\<rparr>)"
  "get_user example_after_transfer 2 = Some (bob\<lparr>balance := - 30\<rparr>)"
  "get_user example_after_transfer 3 = None"
  by (simp_all add: get_user_def example_after_transfer_def alice_def bob_def)

text \<open>
  An instance: the transactions of user 1 after the example transfer, asked for with
  \<^verbatim>\<open>limit=500\<close>. The limit is cut to 250, the offset is 0, and the one transaction of
  the user is the page.
\<close>

theorem list_views_paginate_witness:
  "get_user example_after_transfer 1 \<noteq> None \<and>
   UserTransactionViewSet_list example_int [''limit'' \<mapsto> ''500''] 1 example_after_transfer =
     Response (TransactionPage
       \<lparr>entries = [example_leg1], limit = 250, offset = 0, overall_count = 1\<rparr>) HTTP_200_OK"
proof -
  have h: "get_user example_after_transfer 1 \<noteq> None"
    using example_after_transfer_users(1) by simp
  note c = list_views_paginate [where py_int = example_int and q = "[''limit'' \<mapsto> ''500'']"
      and s = example_after_transfer and user_pk = 1, THEN conjunct2, THEN conjunct1, THEN mp, OF h]
  then obtain pg where
    eq: "UserTransactionViewSet_list example_int [''limit'' \<mapsto> ''500''] 1 example_after_transfer =
           Response (TransactionPage pg) HTTP_200_OK"
    and l: "limit pg =
           (case [''limit'' \<mapsto> ''500''] ''limit'' of
              None \<Rightarrow> 100
            | Some str \<Rightarrow>
                (case example_int str of
                   None \<Rightarrow> 100
                 | Some n \<Rightarrow> if 0 < n then min n 250 else 100))"
    and o: "offset pg =
           (case [''limit'' \<mapsto> ''500''] ''offset'' of
              None \<Rightarrow> 0
            | Some str \<Rightarrow>
                (case example_int str of
                   None \<Rightarrow> 0
                 | Some m \<Rightarrow> if 0 \<le> m then m else 0))"
    and n: "overall_count pg =
           int (length (filter (\<lambda>t. tx_user t = 1) (transactions example_after_transfer)))"
    and e: "entries pg =
           map transaction_to_dict
             (take (nat (limit pg))
               (drop (nat (offset pg))
                 (filter (\<lambda>t. tx_user t = 1) (transactions example_after_transfer))))"
    by blast
  have l': "limit pg = 250" using l by (simp add: example_int_def)
  have o': "offset pg = 0" using o by simp
  have n': "overall_count pg = 1"
    using n by (simp add: example_after_transfer_def example_leg1_def example_leg2_def)
  have e': "entries pg = [example_leg1]"
    using e
    by (simp add: l' o' transaction_to_dict_def example_after_transfer_def example_leg1_def
        example_leg2_def)
  have "pg = \<lparr>entries = [example_leg1], limit = 250, offset = 0, overall_count = 1\<rparr>"
    using l' o' n' e' by (intro page.equality) simp_all
  with eq h show ?thesis by simp
qed

section \<open>Retrieving a user\<close>

lemma Response_UserPage_inject:
  "Response (UserPage pg) st = Response (UserPage pg') st' \<Longrightarrow> pg = pg'"
  by (simp add: Response_def)

text \<open>
  Claim C10. \<^verbatim>\<open>GET /users/{pk}\<close> answers with status 200 and the full record of the
  user whenever a user with that key exists, whatever its \<^verbatim>\<open>active\<close> flag is; every
  entry of \<^verbatim>\<open>GET /users\<close> is the summary of a user whose flag is set.
\<close>

theorem retrieve_ignores_active_list_filters:
  "(get_user s pk = Some usr \<longrightarrow>
      UserViewSet_retrieve pk s = Response (UserData (to_full_dict usr)) HTTP_200_OK) \<and>
   (\<forall>pg. UserViewSet_list py_int q s = Response (UserPage pg) HTTP_200_OK \<longrightarrow>
      (\<forall>e \<in> set (entries pg). \<exists>u \<in> set (users s). active u \<and> e = to_dict u))"
proof (intro conjI impI allI ballI)
  assume "get_user s pk = Some usr"
  then show "UserViewSet_retrieve pk s = Response (UserData (to_full_dict usr)) HTTP_200_OK"
    by (simp add: UserViewSet_retrieve_def)
next
  fix pg e
  assume eq: "UserViewSet_list py_int q s = Response (UserPage pg) HTTP_200_OK"
    and e: "e \<in> set (entries pg)"
  have "pg = map_page to_dict
       (paginate_queryset py_int view_paginator (filter active (users s)) q)"
    using eq unfolding UserViewSet_list_page
    by (rule Response_UserPage_inject [THEN sym])
  then have "entries pg = map to_dict
       (take (nat (get_limit py_int view_paginator q))
          (drop (nat (get_offset py_int q)) (filter active (users s))))"
    by (simp add: map_page_def paginate_view)
  with e obtain u where "e = to_dict u"
    "u \<in> set (take (nat (get_limit py_int view_paginator q))
          (drop (nat (get_offset py_int q)) (filter active (users s))))"
    by auto
  then have "u \<in> set (filter active (users s))" "e = to_dict u"
    by (auto dest!: in_set_takeD in_set_dropD)
  then show "\<exists>u \<in> set (users s). active u \<and> e = to_dict u"
    by auto
qed

text \<open>
  An instance: user 2 of the example store is not active. The user is retrieved by key,
  and the list of users consists of user 1 alone.
\<close>

theorem retrieve_ignores_active_list_filters_witness:
  "get_user example_store 2 = Some bob \<and> \<not> active bob \<and>
   UserViewSet_retrieve 2 example_store = Response (UserData (to_full_dict bob)) HTTP_200_OK \<and>
   UserViewSet_list example_int Map.empty example_store =
     Response (UserPage \<lparr>entries = [to_dict alice], limit = 100, offset = 0, overall_count = 1\<rparr>)
       HTTP_200_OK \<and>
   active alice"
proof -
  have h: "get_user example_store 2 = Some bob" by (rule example_users(2))
  note c1 = retrieve_ignores_active_list_filters [where s = example_store and pk = 2
      and usr = bob, THEN conjunct1, THEN mp, OF h]
  have l: "UserViewSet_list example_int Map.empty example_store =
     Response (UserPage \<lparr>entries = [to_dict alice], limit = 100, offset = 0, overall_count = 1\<rparr>)
       HTTP_200_OK"
    by (simp add: UserViewSet_list_def paginate_queryset_def get_limit_def get_offset_def
        view_paginator_def map_page_def example_store_def alice_def bob_def Let_def)
  have na: "\<not> active bob" "active alice" by (simp_all add: bob_def alice_def)
  from h na c1 l show ?thesis by simp
qed

section \<open>Balances against the sum of the transactions\<close>

lemma get_user_in_users: "get_user s k = Some u \<Longrightarrow> u \<in> set (users s)"
  by (auto simp: get_user_def find_Some_iff)

lemma single_entry_keeps_balances:
  assumes rec: "list_all (\<lambda>u. balance u = calc_balance s u) (users s)"
    and op: "create_single_entry_transaction cfg user_id val s = (s', r)"
  shows "list_all (\<lambda>u. balance u = calc_balance s' u) (users s')"
proof (cases "get_user s user_id = None \<or> validate_value cfg val \<noteq> None")
  case True
  from create_single_entry_block_fail [OF True] op have "s' = s"
    by (auto simp: create_single_entry_transaction_def atomic_def)
  with rec show ?thesis by simp
next
  case False
  then obtain u where u: "get_user s user_id = Some u" and v: "validate_value cfg val = None"
    by auto
  from rec get_user_in_users [OF u] have bu: "balance u = calc_balance s u"
    by (simp add: list_all_iff)
  from create_single_entry_success [OF u v] op
  have s': "s' = \<lparr>users = map (\<lambda>r. if u_id r = user_id then u\<lparr>balance := balance u + val\<rparr> else r)
                     (users s),
           transactions = transactions s @
             [\<lparr>tx_id = next_transaction_id s, tx_user = user_id, tx_value = val,
               double_entry_id = None\<rparr>],
           next_transaction_id = Suc (next_transaction_id s)\<rparr>"
    by (simp add: Let_def)
  have calc: "calc_balance s' x = calc_balance s x + (if u_id x = user_id then val else 0)" for x
    by (simp add: calc_balance_def s')
  show ?thesis
    unfolding list_all_iff
  proof
    fix x assume "x \<in> set (users s')"
    then obtain x0 where x0: "x0 \<in> set (users s)"
      and x: "x = (if u_id x0 = user_id then u\<lparr>balance := balance u + val\<rparr> else x0)"
      by (auto simp: s')
    from rec x0 have b0: "balance x0 = calc_balance s x0" by (simp add: list_all_iff)
    have cu: "calc_balance s (u\<lparr>balance := balance u + val\<rparr>) = calc_balance s u"
      by (simp add: calc_balance_def)
    show "balance x = calc_balance s' x"
    proof (cases "u_id x0 = user_id")
      case True
      with x bu cu get_user_id [OF u] show ?thesis by (simp add: calc)
    next
      case False
      with x b0 show ?thesis by (simp add: calc)
    qed
  qed
qed

lemma double_entry_keeps_balances:
  assumes rec: "list_all (\<lambda>u. balance u = calc_balance s u) (users s)"
    and fresh: "fresh_ids s"
    and ne: "src_account_id \<noteq> dst_account_id"
    and op: "create_double_entry_transactions cfg src_account_id dst_account_id val s = (s', r)"
  shows "list_all (\<lambda>u. balance u = calc_balance s' u) (users s')"
proof (cases "get_user s src_account_id = None \<or> get_user s dst_account_id = None \<or>
           validate_value cfg val \<noteq> None \<or> validate_value cfg (- val) \<noteq> None")
  case True
  from create_double_entry_block_fail [OF True] op have "s' = s"
    by (auto simp: create_double_entry_transactions_def atomic_def)
  with rec show ?thesis by simp
next
  case False
  then obtain a b where a: "get_user s src_account_id = Some a"
    and b: "get_user s dst_account_id = Some b"
    and v: "validate_value cfg val = None" "validate_value cfg (- val) = None"
    by auto
  from rec get_user_in_users [OF a] get_user_in_users [OF b]
  have bal: "balance a = calc_balance s a" "balance b = calc_balance s b"
    by (simp_all add: list_all_iff)
  from create_double_entry_success [OF a b v fresh] op
  have s': "s' = \<lparr>users = map (\<lambda>r. if u_id r = dst_account_id then b\<lparr>balance := balance b + - val\<rparr> else r)
                    (map (\<lambda>r. if u_id r = src_account_id then a\<lparr>balance := balance a + val\<rparr> else r) (users s)),
           transactions = transactions s @
             [\<lparr>tx_id = next_transaction_id s, tx_user = src_account_id, tx_value = val,
               double_entry_id = Some (Suc (next_transaction_id s))\<rparr>,
              \<lparr>tx_id = Suc (next_transaction_id s), tx_user = dst_account_id, tx_value = - val,
               double_entry_id = Some (next_transaction_id s)\<rparr>],
           next_transaction_id = Suc (Suc (next_transaction_id s))\<rparr>"
    by (simp add: Let_def)
  have calc: "calc_balance s' x = calc_balance s x +
      (if u_id x = src_account_id then val else 0) + (if u_id x = dst_account_id then - val else 0)"
    for x
    by (simp add: calc_balance_def s')
  have ca: "calc_balance s (a\<lparr>balance := balance a + val\<rparr>) = calc_balance s a"
    and cb: "calc_balance s (b\<lparr>balance := balance b + - val\<rparr>) = calc_balance s b"
    by (simp_all add: calc_balance_def)
  note ida = get_user_id [OF a] and idb = get_user_id [OF b]
  show ?thesis
    unfolding list_all_iff
  proof
    fix x assume "x \<in> set (users s')"
    then obtain x0 where x0: "x0 \<in> set (users s)"
      and x: "x = (if u_id x0 = dst_account_id then b\<lparr>balance := balance b + - val\<rparr>
                   else if u_id x0 = src_account_id then a\<lparr>balance := balance a + val\<rparr>
                   else x0)"
      using ne ida by (auto simp: s')
    from rec x0 have b0: "balance x0 = calc_balance s x0" by (simp add: list_all_iff)
    consider (dst) "u_id x0 = dst_account_id"
      | (src) "u_id x0 \<noteq> dst_account_id" "u_id x0 = src_account_id"
      | (other) "u_id x0 \<noteq> dst_account_id" "u_id x0 \<noteq> src_account_id"
      by blast
    then show "balance x = calc_balance s' x"
    proof cases
      case dst
      with x bal(2) cb idb ne show ?thesis by (simp add: calc)
    next
      case src
      with x bal(1) ca ida ne show ?thesis by (simp add: calc)
    next
      case other
      with x b0 show ?thesis by (simp add: calc)
    qed
  qed
qed

lemma example_after_self_transfer_user:
  "get_user example_after_self_transfer 1 = Some (alice\<lparr>balance := - 30\<rparr>)"
  by (simp add: get_user_def example_after_self_transfer_def alice_def)

text \<open>
  Claim C2 does not hold of the code. A single-entry creation and a double-entry creation
  between two distinct users keep the balances equal to the sums (the two lemmas
  \<open>single_entry_keeps_balances\<close> and \<open>double_entry_keeps_balances\<close>). A transfer
  from a user to the same user breaks it: both accounts are copies of one row, read
  before either is changed, and the second save writes the stale copy over the
  first update. On the example store \<^verbatim>\<open>check_balance\<close> finds every balance matching;
  after user 1 posts the amount 30 with destination 1, answered with 201, the stored
  balance is \<open>-30\<close>, the transactions of the user add up to 0 and \<^verbatim>\<open>check_balance\<close>
  reports a difference.
\<close>

theorem self_transfer_breaks_reconciliation:
  "check_balance example_store = ''Everything matches'' \<and>
   UserTransactionViewSet_create example_settings 1 (Some 30) (Some 1) example_store =
     (example_after_self_transfer,
      Inr (Response (TransactionData example_self_leg1) HTTP_201_CREATED)) \<and>
   map_option balance (get_user example_after_self_transfer 1) = Some (- 30) \<and>
   map_option (calc_balance example_after_self_transfer) (get_user example_after_self_transfer 1) =
     Some 0 \<and>
   check_balance example_after_self_transfer = ''Differences detected''"
proof -
  have "check_balance example_store = ''Everything matches''"
    by (simp add: check_balance_def calc_balance_def example_store_def alice_def bob_def)
  moreover have "map_option balance (get_user example_after_self_transfer 1) = Some (- 30)"
    using example_after_self_transfer_user by (simp add: alice_def)
  moreover have "map_option (calc_balance example_after_self_transfer)
      (get_user example_after_self_transfer 1) = Some 0"
    using example_after_self_transfer_user
    by (simp add: calc_balance_def example_after_self_transfer_def example_self_leg1_def
        example_self_leg2_def alice_def)
  moreover have "check_balance example_after_self_transfer = ''Differences detected''"
    by (simp add: check_balance_def calc_balance_def example_after_self_transfer_def
        example_self_leg1_def example_self_leg2_def alice_def bob_def)
  ultimately show ?thesis
    using example_self_transfer_post by simp
qed

text \<open>
  Claim C5 does not hold of the code. A transfer of 30 from user 1 to user 1 is accepted
  with status 201 and appends two rows, but the balance of the user, 0 before, is
  \<open>-30\<close> afterwards: the update of the source copy is overwritten by the save of the
  destination copy.
\<close>

theorem self_transfer_changes_balance:
  "create_double_entry_transactions example_settings 1 1 30 example_store =
     (example_after_self_transfer,
      Inr (Response (TransactionData example_self_leg1) HTTP_201_CREATED)) \<and>
   transactions example_after_self_transfer =
     transactions example_store @ [example_self_leg1, example_self_leg2] \<and>
   map_option balance (get_user example_store 1) = Some 0 \<and>
   map_option balance (get_user example_after_self_transfer 1) = Some (- 30)"
proof -
  have "transactions example_after_self_transfer =
     transactions example_store @ [example_self_leg1, example_self_leg2]"
    by (simp add: example_after_self_transfer_def example_store_def)
  moreover have "map_option balance (get_user example_store 1) = Some 0"
    using example_users(1) by (simp add: alice_def)
  moreover have "map_option balance (get_user example_after_self_transfer 1) = Some (- 30)"
    using example_after_self_transfer_user by (simp add: alice_def)
  ultimately show ?thesis
    using example_self_transfer by simp
qed

section \<open>The answers of the creation view\<close>

lemma create_status_value_missing:
  "UserTransactionViewSet_create cfg user_pk None dst_field s =
     (s, Inr (Response (Msg ValueMissingMsg) HTTP_400_BAD_REQUEST))"
  by (simp add: UserTransactionViewSet_create_def)

lemma create_status_single:
  assumes "get_user s user_pk = Some u"
  shows "\<exists>resp. snd (UserTransactionViewSet_create cfg user_pk (Some val) None s) = Inr resp \<and>
           status resp =
             (if val = 0 then HTTP_400_BAD_REQUEST
              else if validate_value cfg val \<noteq> None then HTTP_403_FORBIDDEN
              else HTTP_201_CREATED)"
proof (cases "validate_value cfg val")
  case None
  then have "val \<noteq> 0" by (auto simp: validate_value_def split: if_splits)
  with create_single_entry_success [OF assms None] None show ?thesis
    by (simp add: UserTransactionViewSet_create_def handle_create_return Let_def Response_def)
next
  case (Some e)
  then have blk: "create_single_entry_transaction cfg user_pk val s = (s, Inl e)"
    using assms
    by (simp add: create_single_entry_transaction_def atomic_def create_single_entry_block_def
        is_valid_def)
  from Some have "(val = 0 \<and> e = TransactionValueZero) \<or> (val \<noteq> 0 \<and> e = TransactionValueError)"
    by (auto simp: validate_value_def split: if_splits)
  with Some blk show ?thesis
    by (auto simp: UserTransactionViewSet_create_def handle_create_def Response_def)
qed

lemma create_status_double:
  assumes "get_user s user_pk = Some a" "get_user s dst = Some b" "fresh_ids s"
  shows "\<exists>resp. snd (UserTransactionViewSet_create cfg user_pk (Some val) (Some dst) s) = Inr resp \<and>
           status resp =
             (if val = 0 then HTTP_400_BAD_REQUEST
              else if validate_value cfg val \<noteq> None \<or> validate_value cfg (- val) \<noteq> None
                then HTTP_403_FORBIDDEN
              else HTTP_201_CREATED)"
proof (cases "validate_value cfg val = None \<and> validate_value cfg (- val) = None")
  case True
  then have "val \<noteq> 0" by (auto simp: validate_value_def split: if_splits)
  with create_double_entry_success [OF assms(1,2) _ _ assms(3), of cfg val] True show ?thesis
    by (simp add: UserTransactionViewSet_create_def handle_create_return Let_def Response_def)
next
  case False
  note ida = get_user_id [OF assms(1)] and idb = get_user_id [OF assms(2)]
  have blk: "create_double_entry_transactions cfg user_pk dst val s =
      (s, Inl (case validate_value cfg val of Some e \<Rightarrow> e
               | None \<Rightarrow> the (validate_value cfg (- val))))"
    using assms(1,2) ida idb False
    by (auto simp: create_double_entry_transactions_def atomic_def create_double_entry_block_def
        is_valid_def split: option.splits)
  have "(val = 0 \<and> validate_value cfg val = Some TransactionValueZero) \<or>
        (val \<noteq> 0 \<and> validate_value cfg val = Some TransactionValueError) \<or>
        (val \<noteq> 0 \<and> validate_value cfg val = None \<and>
         validate_value cfg (- val) = Some TransactionValueError)"
    using False by (auto simp: validate_value_def split: if_splits)
  then show ?thesis
    by (auto simp: blk UserTransactionViewSet_create_def handle_create_def Response_def)
qed

text \<open>
  Claim C7 does not hold of the code. The three lemmas above give the answers the claim
  names when every user of the request exists: 400 without an amount, 400 for the amount
  zero, 403 for an amount (or, with a destination, its negation) out of range, 201
  otherwise. For a missing user the view has a handler for \<^verbatim>\<open>UserNotFound\<close> that
  answers 404, but both creation operations read the users with \<^verbatim>\<open>User.objects.get\<close>
  before they validate, and that raises \<^verbatim>\<open>User.DoesNotExist\<close>, which no handler of the
  view catches. On the example store, where user 3 does not exist, a request of user 1
  with destination 3 and a request of user 3 itself return no response: the exception
  leaves the view.
\<close>

theorem missing_user_leaves_create_unhandled:
  "get_user example_store 3 = None \<and>
   UserTransactionViewSet_create example_settings 1 (Some 30) (Some 3) example_store =
     (example_store, Inl DoesNotExist) \<and>
   UserTransactionViewSet_create example_settings 3 (Some 30) None example_store =
     (example_store, Inl DoesNotExist)"
proof -
  have d: "create_double_entry_transactions example_settings 1 3 30 example_store =
      (example_store, Inl DoesNotExist)"
    using example_users
    by (simp add: create_double_entry_transactions_def atomic_def create_double_entry_block_def)
  have s: "create_single_entry_transaction example_settings 3 30 example_store =
      (example_store, Inl DoesNotExist)"
    using example_users
    by (simp add: create_single_entry_transaction_def atomic_def create_single_entry_block_def)
  show ?thesis
    using example_users(3) d s
    by (simp add: UserTransactionViewSet_create_def handle_create_def)
qed

section \<open>Retrieving a transaction of a user\<close>

lemma filter_by_key:
  "distinct (map tx_id txs) \<Longrightarrow>
   filter (\<lambda>t. P t \<and> tx_id t = pk) txs =
     (case find (\<lambda>t. tx_id t = pk) txs of
        None \<Rightarrow> []
      | Some t \<Rightarrow> if P t then [t] else [])"
proof (induction txs)
  case Nil
  then show ?case by simp
next
  case (Cons x xs)
  show ?case
  proof (cases "tx_id x = pk")
    case True
    with Cons.prems have "pk \<notin> tx_id ` set xs" by simp
    then have "\<forall>t \<in> set xs. tx_id t \<noteq> pk" by blast
    then have "filter (\<lambda>t. P t \<and> tx_id t = pk) xs = []" by (auto simp: filter_empty_conv)
    with True show ?thesis by simp
  next
    case False
    with Cons show ?thesis by simp
  qed
qed

lemma retrieve_of_existing_user:
  assumes "get_user s user_pk = Some usr" "distinct (map tx_id (transactions s))"
  shows "UserTransactionViewSet_retrieve pk user_pk s =
     (case get_transaction s pk of
        None \<Rightarrow> Inr (Response (Msg TransactionNotFoundMsg) HTTP_404_NOT_FOUND)
      | Some t \<Rightarrow>
          if tx_user t = user_pk then Inr (Response (TransactionData t) HTTP_200_OK)
          else Inr (Response (Msg TransactionNotFoundMsg) HTTP_404_NOT_FOUND))"
  using assms(1) get_user_id [OF assms(1)]
    filter_by_key [OF assms(2), of "\<lambda>t. tx_user t = user_pk" pk]
  by (simp add: UserTransactionViewSet_retrieve_def get_transaction_def transaction_to_dict_def
      split: option.splits)

text \<open>
  Claim C8 does not hold of the code. For an existing user the view answers as the claim
  says (the lemma above). For a user that does not exist it reads the user with
  \<^verbatim>\<open>User.objects.get\<close> outside any \<^verbatim>\<open>try\<close>, so \<^verbatim>\<open>User.DoesNotExist\<close> leaves the view
  and there is no response with status 404; the list view of the same view set catches the
  exception and answers 404. On the example store after the transfer, for the missing
  user 3:
\<close>

theorem retrieve_of_missing_user_raises:
  "get_user example_after_transfer 3 = None \<and>
   UserTransactionViewSet_retrieve 1 3 example_after_transfer = Inl DoesNotExist \<and>
   UserTransactionViewSet_list example_int Map.empty 3 example_after_transfer =
     Response (Msg (UserNotFoundMsg 3)) HTTP_404_NOT_FOUND"
  using example_after_transfer_users(3)
  by (simp add: UserTransactionViewSet_retrieve_def UserTransactionViewSet_list_def)

end
